theory Spec2Isabelle
  imports Main "HOL-Library.AList"
begin

section \<open>Keys and text\<close>

text \<open>
  The keys of a CleverDict are arbitrary hashable Python values. Three kinds are modelled:
  integers (unbounded), text, and opaque objects that are neither numbers nor text and are
  identified by their text form \<open>str(obj)\<close> (\<open>None\<close> is \<open>KObj ''None''\<close>).
  Python's \<open>True\<close> and \<open>False\<close> are the integers 1 and 0 for \<open>==\<close>, \<open>hash\<close>,
  \<open>int()\<close> and dictionary lookup, so a boolean key is the key \<open>key_of_bool b\<close>.
  Floating-point keys are outside the model.

  Text is a list of code points below 256 (one \<open>char\<close> per code point).
\<close>

datatype key = KInt int | KStr string | KObj string

definition key_of_bool :: "bool \<Rightarrow> key" where
  "key_of_bool b = KInt (if b then 1 else 0)"

text \<open>\<open>hash(n)\<close> of CPython on a 64-bit build: reduction modulo \<open>2^61 - 1\<close> keeping the sign,
  with \<open>-1\<close> replaced by \<open>-2\<close>.\<close>

definition hash_int :: "int \<Rightarrow> int" where
  "hash_int n =
     (let m = \<bar>n\<bar> mod (2 ^ 61 - 1);
          h = (if n < 0 then - m else m)
      in if h = - 1 then - 2 else h)"

text \<open>\<open>str(n)\<close> for an integer: decimal digits, a leading minus sign for negatives.\<close>

definition digit_char :: "nat \<Rightarrow> char" where
  "digit_char d = ''0123456789'' ! (d mod 10)"

function str_nat :: "nat \<Rightarrow> string" where
  "str_nat n = (if n < 10 then [digit_char n] else str_nat (n div 10) @ [digit_char (n mod 10)])"
  by pat_completeness auto
termination
  by (relation "measure id") auto

declare str_nat.simps [simp del]

definition str_int :: "int \<Rightarrow> string" where
  "str_int i = (if i < 0 then CHR ''-'' # str_nat (nat (- i)) else str_nat (nat i))"

definition str_bool :: "bool \<Rightarrow> string" where
  "str_bool b = (if b then ''True'' else ''False'')"

fun str_key :: "key \<Rightarrow> string" where
  "str_key (KInt n) = str_int n"
| "str_key (KStr s) = s"
| "str_key (KObj t) = t"

text \<open>The character classes behind \<open>str.isidentifier\<close> and \<open>str.isdigit\<close>, for code points
  below 256: XID_Start, XID_Continue and Numeric_Type Digit or Decimal.\<close>

definition xid_start :: "char \<Rightarrow> bool" where
  "xid_start c =
     (let n = (of_char c :: nat)
      in (65 \<le> n \<and> n \<le> 90) \<or> (97 \<le> n \<and> n \<le> 122) \<or> n = 170 \<or> n = 181 \<or> n = 186
         \<or> (192 \<le> n \<and> n \<le> 214) \<or> (216 \<le> n \<and> n \<le> 246) \<or> (248 \<le> n \<and> n \<le> 255))"

definition id_start :: "char \<Rightarrow> bool" where
  "id_start c = (c = CHR ''_'' \<or> xid_start c)"

definition id_continue :: "char \<Rightarrow> bool" where
  "id_continue c =
     (let n = (of_char c :: nat)
      in id_start c \<or> (48 \<le> n \<and> n \<le> 57) \<or> n = 183)"

definition isdigit :: "char \<Rightarrow> bool" where
  "isdigit c =
     (let n = (of_char c :: nat)
      in (48 \<le> n \<and> n \<le> 57) \<or> n = 178 \<or> n = 179 \<or> n = 185)"

fun isidentifier :: "string \<Rightarrow> bool" where
  "isidentifier [] = False"
| "isidentifier (c # cs) = (id_start c \<and> list_all id_continue cs)"

text \<open>\<open>keyword.kwlist\<close> of Python 3.\<close>

definition kwlist :: "string list" where
  "kwlist =
     [''False'', ''None'', ''True'', ''and'', ''as'', ''assert'', ''async'', ''await'',
      ''break'', ''class'', ''continue'', ''def'', ''del'', ''elif'', ''else'', ''except'',
      ''finally'', ''for'', ''from'', ''global'', ''if'', ''import'', ''in'', ''is'',
      ''lambda'', ''nonlocal'', ''not'', ''or'', ''pass'', ''raise'', ''return'', ''try'',
      ''while'', ''with'', ''yield'']"

definition iskeyword :: "string \<Rightarrow> bool" where
  "iskeyword s = (s \<in> set kwlist)"

section \<open>The alias deriver\<close>

text \<open>
  \<open>name_to_aliases\<close> reads the class attribute \<open>CleverDict.expand\<close>; the value read is the
  first argument. The branch for a name that is not its own hash is \<open>text_aliases\<close>:
  the list it appends to \<open>[name]\<close>.
\<close>

definition norm_name :: "string \<Rightarrow> string" where
  "norm_name name =
     (let norm = (if name = [] \<or> isdigit (hd name) \<or> iskeyword name then ''_'' @ name else name)
      in map (\<lambda>(i, ch). if isidentifier (take i ''A'' @ [ch]) then ch else CHR ''_'')
             (enumerate 0 norm))"

definition text_aliases :: "key \<Rightarrow> key list" where
  "text_aliases name =
     (let text = str_key name
      in (if name \<noteq> KStr text \<and> isidentifier text \<and> \<not> iskeyword text then [KStr text] else [])
         @ (if text \<noteq> norm_name text then [KStr (norm_name text)] else []))"

definition name_to_aliases :: "bool \<Rightarrow> key \<Rightarrow> key list" where
  "name_to_aliases expand_on name =
     (if expand_on then
        (case name of
           KInt n \<Rightarrow>
             if n = hash_int n then
               [name, KStr (''_'' @ str_int n)]
               @ (if n = 0 \<or> n = 1 then [KStr (''_'' @ str_bool (n \<noteq> 0))] else [])
             else name # text_aliases name
         | _ \<Rightarrow> name # text_aliases name)
      else [name])"

text \<open>The normalized identifier form as the specification words it: prefix, then replace
  each character that is illegal at its position.\<close>

fun replace_illegal :: "string \<Rightarrow> string" where
  "replace_illegal [] = []"
| "replace_illegal (c # cs) =
     (if id_start c then c else CHR ''_'')
     # map (\<lambda>ch. if id_continue ch then ch else CHR ''_'') cs"

definition normalized_identifier :: "string \<Rightarrow> string" where
  "normalized_identifier s =
     replace_illegal
       (if s = [] \<or> (s \<noteq> [] \<and> isdigit (hd s)) \<or> iskeyword s then CHR ''_'' # s else s)"

section \<open>The container\<close>

text \<open>
  A CleverDict is a dictionary (its items, in insertion order), the alias dictionary stored
  as the direct attribute \<open>_aliases\<close> (alias to key, in insertion order), and its other
  direct attributes, which \<open>vars(self)\<close> holds beside \<open>_aliases\<close>. The class attribute
  \<open>CleverDict.expand\<close> is shared by all instances; it is carried in the state so that the
  context manager \<open>expand\<close> can change and restore it. Python dictionaries are association
  lists here: \<open>AList.update\<close> overwrites in place or appends, as assignment to a dictionary
  does.
\<close>

record 'v cleverdict =
  expand :: bool
  items :: "(key \<times> 'v) list"
  aliases :: "(key \<times> key) list"
  vars :: "(string \<times> 'v) list"

text \<open>Every exception of the source is a \<open>KeyError\<close> or an \<open>AttributeError\<close>. The constructors
  of \<open>error\<close> tell the raising sites apart: \<open>get_key\<close>, the built-in dictionary under the
  class, \<open>_add_alias\<close>, and the two checks of \<open>delete_alias\<close>.\<close>

datatype error =
    KeyError_get_key key
  | KeyError_dict key
  | KeyError_already_alias key key
  | KeyError_not_present key
  | KeyError_key_element key
  | AttributeError error

type_synonym ('a, 'v) outcome = "(error + 'a) \<times> 'v cleverdict"

definition contains :: "'v cleverdict \<Rightarrow> key \<Rightarrow> bool" where
  "contains d name = (name \<in> set (map fst (items d)))"

definition dict_setitem :: "key \<Rightarrow> 'v \<Rightarrow> 'v cleverdict \<Rightarrow> 'v cleverdict" where
  "dict_setitem name v d = d\<lparr>items := AList.update name v (items d)\<rparr>"

text \<open>
  \<open>setattr_direct\<close> is \<open>object.__setattr__\<close>: it writes the instance dictionary, of which
  \<open>_aliases\<close> is an entry, unless the class has a data descriptor of that name
  (\<open>__class__\<close>, \<open>__dict__\<close> and \<open>__weakref__\<close>, for a subclass of \<open>dict\<close>). The values
  are of the arbitrary type \<open>'v\<close>; \<open>as_dict v\<close> is the list of items of \<open>v\<close> when \<open>v\<close> is a
  dictionary of keys, and \<open>None\<close> when it is not. The record \<open>cleverdict\<close> describes an
  object whose attribute \<open>_aliases\<close> is a dictionary; the result is \<open>None\<close> where the
  assignment leaves such objects behind, by putting another value in \<open>_aliases\<close> or by
  going through a data descriptor.
\<close>

definition data_descriptor_names :: "string list" where
  "data_descriptor_names = [''__class__'', ''__dict__'', ''__weakref__'']"

definition setattr_direct ::
  "('v \<Rightarrow> (key \<times> key) list option) \<Rightarrow> string \<Rightarrow> 'v \<Rightarrow> 'v cleverdict \<Rightarrow> 'v cleverdict option" where
  "setattr_direct as_dict name v d =
     (if name \<in> set data_descriptor_names then None
      else if name = ''_aliases'' then
        (case as_dict v of Some al \<Rightarrow> Some (d\<lparr>aliases := al\<rparr>) | None \<Rightarrow> None)
      else Some (d\<lparr>vars := AList.update name v (vars d)\<rparr>))"

definition get_key :: "key \<Rightarrow> 'v cleverdict \<Rightarrow> error + key" where
  "get_key name d =
     (case map_of (aliases d) name of
        Some k \<Rightarrow> Inr k
      | None \<Rightarrow> Inl (KeyError_get_key name))"

definition add_alias_internal :: "key \<Rightarrow> key \<Rightarrow> 'v cleverdict \<Rightarrow> (unit, 'v) outcome" where
  "add_alias_internal name alias d =
     (case map_of (aliases d) alias of
        Some k \<Rightarrow>
          if k \<noteq> name then (Inl (KeyError_already_alias alias k), d)
          else (Inr (), d\<lparr>aliases := AList.update alias name (aliases d)\<rparr>)
      | None \<Rightarrow> (Inr (), d\<lparr>aliases := AList.update alias name (aliases d)\<rparr>))"

text \<open>The loop \<open>for al in ...: self._add_alias(name, al)\<close>; an exception leaves the
  aliases registered so far in place.\<close>

fun add_alias_each :: "key \<Rightarrow> key list \<Rightarrow> 'v cleverdict \<Rightarrow> (unit, 'v) outcome" where
  "add_alias_each name [] d = (Inr (), d)"
| "add_alias_each name (al # als) d =
     (case add_alias_internal name al d of
        (Inl e, d') \<Rightarrow> (Inl e, d')
      | (Inr _, d') \<Rightarrow> add_alias_each name als d')"

text \<open>\<open>__setattr__\<close>, which is also \<open>__setitem__\<close>. The \<open>save\<close> hook does nothing.\<close>

definition setitem :: "key \<Rightarrow> 'v \<Rightarrow> 'v cleverdict \<Rightarrow> (unit, 'v) outcome" where
  "setitem name v d =
     (case map_of (aliases d) name of
        Some k \<Rightarrow> (Inr (), dict_setitem k v d)
      | None \<Rightarrow>
          if \<not> contains d name then
            (case add_alias_each name (name_to_aliases (expand d) name) d of
               (Inl e, d') \<Rightarrow> (Inl e, d')
             | (Inr _, d') \<Rightarrow> (Inr (), dict_setitem name v d'))
          else (Inr (), dict_setitem name v d))"

definition getitem :: "key \<Rightarrow> 'v cleverdict \<Rightarrow> error + 'v" where
  "getitem name d =
     (case get_key name d of
        Inl e \<Rightarrow> Inl e
      | Inr k \<Rightarrow> (case map_of (items d) k of None \<Rightarrow> Inl (KeyError_dict k) | Some v \<Rightarrow> Inr v))"

text \<open>\<open>__getattr__\<close>: Python calls it when the ordinary attribute lookup has failed.\<close>

definition getattr :: "key \<Rightarrow> 'v cleverdict \<Rightarrow> error + 'v" where
  "getattr name d = (case getitem name d of Inl e \<Rightarrow> Inl (AttributeError e) | Inr v \<Rightarrow> Inr v)"

text \<open>
  Reading \<open>d.name\<close>. The ordinary lookup comes first: a data descriptor of the class, then
  the instance dictionary (\<open>_aliases\<close> and the other direct attributes), then any other
  attribute of the class. Only a name found in none of them reaches \<open>__getattr__\<close>.
  \<open>cleverdict_names\<close> are the names that the class body of the source defines;
  \<open>inherited\<close> tells which further names the interpreter, \<open>dict\<close> and \<open>object\<close> define.
\<close>

definition cleverdict_names :: "string list" where
  "cleverdict_names =
     [''__doc__'', ''expand'', ''__init__'', ''update'', ''fromkeys'', ''save'',
      ''__setattr__'', ''__setitem__'', ''setattr_direct'', ''__getitem__'', ''__getattr__'',
      ''__delitem__'', ''__delattr__'', ''get_key'', ''_default'', ''get_aliases'',
      ''add_alias'', ''_add_alias'', ''delete_alias'', ''__repr__'', ''__str__'', ''__eq__'']"

datatype 'v looked_up =
    Class_attribute string
  | Alias_dictionary "(key \<times> key) list"
  | Direct_attribute 'v
  | Item 'v

definition found_by_lookup :: "(string \<Rightarrow> bool) \<Rightarrow> string \<Rightarrow> 'v cleverdict \<Rightarrow> bool" where
  "found_by_lookup inherited name d =
     (name \<in> set data_descriptor_names \<or> name = ''_aliases'' \<or> map_of (vars d) name \<noteq> None
      \<or> name \<in> set cleverdict_names \<or> inherited name)"

definition attribute_access ::
  "(string \<Rightarrow> bool) \<Rightarrow> string \<Rightarrow> 'v cleverdict \<Rightarrow> error + 'v looked_up" where
  "attribute_access inherited name d =
     (if name \<in> set data_descriptor_names then Inr (Class_attribute name)
      else if name = ''_aliases'' then Inr (Alias_dictionary (aliases d))
      else (case map_of (vars d) name of
              Some v \<Rightarrow> Inr (Direct_attribute v)
            | None \<Rightarrow>
                if name \<in> set cleverdict_names \<or> inherited name then Inr (Class_attribute name)
                else (case getattr (KStr name) d of
                        Inl e \<Rightarrow> Inl e
                      | Inr v \<Rightarrow> Inr (Item v))))"

text \<open>\<open>__delitem__\<close>: the loop runs over a copy of the alias items and deletes from the
  dictionary itself.\<close>

definition purge_aliases :: "key \<Rightarrow> (key \<times> key) list \<Rightarrow> (key \<times> key) list" where
  "purge_aliases k al =
     fold (\<lambda>(ak, av) acc. if av = k then AList.delete ak acc else acc) al al"

definition delitem :: "key \<Rightarrow> 'v cleverdict \<Rightarrow> (unit, 'v) outcome" where
  "delitem name d =
     (case get_key name d of
        Inl e \<Rightarrow> (Inl e, d)
      | Inr k \<Rightarrow>
          if \<not> contains d k then (Inl (KeyError_dict k), d)
          else (Inr (), d\<lparr>items := AList.delete k (items d),
                          aliases := purge_aliases k (aliases d)\<rparr>))"

definition delattr :: "key \<Rightarrow> 'v cleverdict \<Rightarrow> (unit, 'v) outcome" where
  "delattr name d =
     (case delitem name d of
        (Inl e, d') \<Rightarrow> (Inl (AttributeError e), d')
      | (Inr u, d') \<Rightarrow> (Inr u, d'))"

text \<open>The argument of \<open>add_alias\<close> and \<open>delete_alias\<close> is a scalar or an iterable of scalars;
  a string counts as a scalar.\<close>

datatype alias_arg = Scalar key | Several "key list"

fun alias_list :: "alias_arg \<Rightarrow> key list" where
  "alias_list (Scalar a) = [a]"
| "alias_list (Several as) = as"

fun add_alias_loop :: "key \<Rightarrow> key list \<Rightarrow> 'v cleverdict \<Rightarrow> (unit, 'v) outcome" where
  "add_alias_loop k [] d = (Inr (), d)"
| "add_alias_loop k (al # als) d =
     (case add_alias_each k (name_to_aliases (expand d) al) d of
        (Inl e, d') \<Rightarrow> (Inl e, d')
      | (Inr _, d') \<Rightarrow> add_alias_loop k als d')"

definition add_alias :: "key \<Rightarrow> alias_arg \<Rightarrow> 'v cleverdict \<Rightarrow> (unit, 'v) outcome" where
  "add_alias name alias d =
     (case get_key name d of
        Inl e \<Rightarrow> (Inl e, d)
      | Inr k \<Rightarrow> add_alias_loop k (alias_list alias) d)"

text \<open>\<open>delete_alias\<close>: the inner loop deletes every derived form of the alias that is among
  the keys of the alias dictionary after the first one.\<close>

fun delete_derived :: "key list \<Rightarrow> (key \<times> key) list \<Rightarrow> (key \<times> key) list" where
  "delete_derived [] al = al"
| "delete_derived (alx # rest) al =
     delete_derived rest (if alx \<in> set (tl (map fst al)) then AList.delete alx al else al)"

fun delete_alias_loop :: "key list \<Rightarrow> 'v cleverdict \<Rightarrow> (unit, 'v) outcome" where
  "delete_alias_loop [] d = (Inr (), d)"
| "delete_alias_loop (al # als) d =
     (if map_of (aliases d) al = None then (Inl (KeyError_not_present al), d)
      else if contains d al then (Inl (KeyError_key_element al), d)
      else delete_alias_loop als
             (d\<lparr>aliases := delete_derived (name_to_aliases (expand d) al)
                                (AList.delete al (aliases d))\<rparr>))"

definition delete_alias :: "alias_arg \<Rightarrow> 'v cleverdict \<Rightarrow> (unit, 'v) outcome" where
  "delete_alias alias d = delete_alias_loop (alias_list alias) d"

section \<open>The scoped override of the expansion flag\<close>

text \<open>\<open>with expand(ok): body\<close>. \<open>__enter__\<close> saves the flag and sets it; \<open>__exit__\<close> runs
  when the body returns and when it raises, and lets the exception through.\<close>

definition with_expand ::
  "bool \<Rightarrow> ('v cleverdict \<Rightarrow> 'r \<times> 'v cleverdict) \<Rightarrow> 'v cleverdict \<Rightarrow> 'r \<times> 'v cleverdict" where
  "with_expand ok body d =
     (let save_expand = expand d;
          (r, d') = body (d\<lparr>expand := ok\<rparr>)
      in (r, d'\<lparr>expand := save_expand\<rparr>))"

section \<open>Construction and equality\<close>

text \<open>\<open>update\<close> stores the pairs of the mapping, then the keyword arguments (whose keys are
  text).\<close>

fun setitem_each :: "(key \<times> 'v) list \<Rightarrow> 'v cleverdict \<Rightarrow> (unit, 'v) outcome" where
  "setitem_each [] d = (Inr (), d)"
| "setitem_each ((k, v) # kvs) d =
     (case setitem k v d of
        (Inl e, d') \<Rightarrow> (Inl e, d')
      | (Inr _, d') \<Rightarrow> setitem_each kvs d')"

definition update ::
  "(key \<times> 'v) list \<Rightarrow> (string \<times> 'v) list \<Rightarrow> 'v cleverdict \<Rightarrow> (unit, 'v) outcome" where
  "update mapping kwargs d = setitem_each (mapping @ map (\<lambda>(k, v). (KStr k, v)) kwargs) d"

text \<open>The loop over the declared aliases: \<open>for k, v in _aliases.items(): self._add_alias(v, k)\<close>.\<close>

fun declare_each :: "(key \<times> key) list \<Rightarrow> 'v cleverdict \<Rightarrow> (unit, 'v) outcome" where
  "declare_each [] d = (Inr (), d)"
| "declare_each ((k, v) # rest) d =
     (case add_alias_internal v k d of
        (Inl e, d') \<Rightarrow> (Inl e, d')
      | (Inr _, d') \<Rightarrow> declare_each rest d')"

text \<open>The loop \<open>for k, v in _vars.items(): self.setattr_direct(k, v)\<close>.\<close>

fun setattr_each ::
  "('v \<Rightarrow> (key \<times> key) list option) \<Rightarrow> (string \<times> 'v) list \<Rightarrow> 'v cleverdict
   \<Rightarrow> 'v cleverdict option" where
  "setattr_each as_dict [] d = Some d"
| "setattr_each as_dict ((k, v) # rest) d =
     (case setattr_direct as_dict k v d of
        None \<Rightarrow> None
      | Some d' \<Rightarrow> setattr_each as_dict rest d')"

text \<open>The body of the \<open>with\<close> statement in \<open>__init__\<close>. The result is \<open>Some\<close> of what the
  body does, an error or a normal end, and \<open>None\<close> where \<open>_vars\<close> leaves the objects that
  the record describes.\<close>

definition init_body ::
  "('v \<Rightarrow> (key \<times> key) list option) \<Rightarrow> (key \<times> 'v) list \<Rightarrow> (key \<times> key) list option
   \<Rightarrow> (string \<times> 'v) list \<Rightarrow> (string \<times> 'v) list
   \<Rightarrow> 'v cleverdict \<Rightarrow> (error + unit) option \<times> 'v cleverdict" where
  "init_body as_dict mapping decl vs kwargs d =
     (case update mapping kwargs d of
        (Inl e, d') \<Rightarrow> (Some (Inl e), d')
      | (Inr _, d') \<Rightarrow>
          (case (case decl of None \<Rightarrow> (Inr (), d') | Some al \<Rightarrow> declare_each al d') of
             (Inl e, d'') \<Rightarrow> (Some (Inl e), d'')
           | (Inr _, d'') \<Rightarrow>
               (case setattr_each as_dict vs d'' of
                  None \<Rightarrow> (None, d'')
                | Some dv \<Rightarrow> (Some (Inr ()), dv))))"

text \<open>\<open>CleverDict(_mapping, _aliases, _vars, **kwargs)\<close>, run when the class flag is
  \<open>flag\<close>. The attribute \<open>_aliases\<close> starts as the empty dictionary. \<open>kwargs\<close> are the
  keyword arguments that are not parameters of \<open>__init__\<close>, and the names in \<open>_vars\<close> are
  text, as \<open>object.__setattr__\<close> requires.\<close>

definition init ::
  "('v \<Rightarrow> (key \<times> key) list option) \<Rightarrow> bool \<Rightarrow> (key \<times> 'v) list
   \<Rightarrow> (key \<times> key) list option \<Rightarrow> (string \<times> 'v) list
   \<Rightarrow> (string \<times> 'v) list \<Rightarrow> (error + unit) option \<times> 'v cleverdict" where
  "init as_dict flag mapping decl vs kwargs =
     with_expand (case decl of None \<Rightarrow> flag | Some _ \<Rightarrow> False)
       (init_body as_dict mapping decl vs kwargs)
       \<lparr>expand = flag, items = [], aliases = [], vars = []\<rparr>"

text \<open>\<open>__eq__\<close> between two CleverDicts: \<open>self.items() == other.items()\<close> compares the two
  sets of item pairs, and \<open>vars(self) == vars(other)\<close> compares the direct attributes, of
  which \<open>_aliases\<close> is one, as dictionaries.\<close>

definition eq :: "'v cleverdict \<Rightarrow> 'v cleverdict \<Rightarrow> bool" where
  "eq a b =
     (set (items a) = set (items b)
      \<and> (set (aliases a) = set (aliases b) \<and> set (vars a) = set (vars b)))"

section \<open>Auxiliary notions\<close>

text \<open>The alias dictionary after registering each of \<open>als\<close> for \<open>name\<close>, in order.\<close>

definition register :: "key \<Rightarrow> key list \<Rightarrow> (key \<times> key) list \<Rightarrow> (key \<times> key) list" where
  "register name als al = fold (\<lambda>a. AList.update a name) als al"

text \<open>The empty container, as \<open>CleverDict()\<close> builds it under the class flag \<open>flag\<close>.\<close>

definition empty_dict :: "bool \<Rightarrow> 'v cleverdict" where
  "empty_dict flag = \<lparr>expand = flag, items = [], aliases = [], vars = []\<rparr>"

text \<open>Reading values as dictionaries where the values are numbers: none is one.\<close>

definition no_dictionary :: "nat \<Rightarrow> (key \<times> key) list option" where
  "no_dictionary v = None"

text \<open>Values that are numbers or dictionaries of keys.\<close>

datatype val = Number nat | Dictionary "(key \<times> key) list"

fun dictionary_of :: "val \<Rightarrow> (key \<times> key) list option" where
  "dictionary_of (Dictionary al) = Some al"
| "dictionary_of (Number n) = None"

text \<open>An upper bound of the names that the interpreter, \<open>dict\<close> and \<open>object\<close> define: the
  public methods of \<open>dict\<close> and every name written between double underscores.\<close>

definition builtin_name :: "string \<Rightarrow> bool" where
  "builtin_name name =
     (name \<in> set [''clear'', ''copy'', ''fromkeys'', ''get'', ''items'', ''keys'', ''pop'',
                  ''popitem'', ''setdefault'', ''update'', ''values'']
      \<or> (take 2 name = ''__'' \<and> take 2 (rev name) = ''__''))"

text \<open>The container that \<open>CleverDict({"expand": False})\<close> builds.\<close>

definition expand_item_dict :: "nat cleverdict" where
  "expand_item_dict =
     \<lparr>expand = True, items = [(KStr ''expand'', 0)],
      aliases = [(KStr ''expand'', KStr ''expand'')], vars = []\<rparr>"

text \<open>The container after \<open>d = CleverDict(); with expand(False): d["two words"] = 1\<close>.\<close>

definition plain_two_words_dict :: "nat cleverdict" where
  "plain_two_words_dict =
     \<lparr>expand = True, items = [(KStr ''two words'', 1)],
      aliases = [(KStr ''two words'', KStr ''two words'')], vars = []\<rparr>"

text \<open>The container that \<open>CleverDict({"two_words": 1})\<close> builds.\<close>

definition two_words_dict :: "nat cleverdict" where
  "two_words_dict =
     \<lparr>expand = True, items = [(KStr ''two_words'', 1)],
      aliases = [(KStr ''two_words'', KStr ''two_words'')], vars = []\<rparr>"

text \<open>The container that \<open>CleverDict({"x": 1})\<close> builds.\<close>

definition x_dict :: "nat cleverdict" where
  "x_dict =
     \<lparr>expand = True, items = [(KStr ''x'', 1)], aliases = [(KStr ''x'', KStr ''x'')],
      vars = []\<rparr>"

text \<open>The container that \<open>CleverDict({"x": 1}, _aliases={"b": "x"})\<close> builds.\<close>

definition x_alias_dict :: "nat cleverdict" where
  "x_alias_dict =
     \<lparr>expand = True, items = [(KStr ''x'', 1)],
      aliases = [(KStr ''x'', KStr ''x''), (KStr ''b'', KStr ''x'')], vars = []\<rparr>"

text \<open>The container after \<open>d = CleverDict(); d["x"] = 0; d["_1"] = 2; d.add_alias("_1", 1)\<close>.\<close>

definition two_keys_dict :: "nat cleverdict" where
  "two_keys_dict =
     \<lparr>expand = True, items = [(KStr ''x'', 0), (KStr ''_1'', 2)],
      aliases = [(KStr ''x'', KStr ''x''), (KStr ''_1'', KStr ''_1''), (KInt 1, KStr ''_1''),
                 (KStr ''_True'', KStr ''_1'')],
      vars = []\<rparr>"

text \<open>Invariant I1: every key of the items is registered as its own alias.\<close>

definition inv_I1 :: "'v cleverdict \<Rightarrow> bool" where
  "inv_I1 d = list_all (\<lambda>k. map_of (aliases d) k = Some k) (map fst (items d))"

text \<open>The container after
  \<open>d = CleverDict({}, _aliases={"b": "zzz"}); d["b"] = 1; d["x"] = 2; d.add_alias("x", "zzz")\<close>.\<close>

definition stray_dict :: "nat cleverdict" where
  "stray_dict =
     \<lparr>expand = True, items = [(KStr ''zzz'', 1), (KStr ''x'', 2)],
      aliases = [(KStr ''b'', KStr ''zzz''), (KStr ''x'', KStr ''x''), (KStr ''zzz'', KStr ''x'')],
      vars = []\<rparr>"


section \<open>Properties of the alias deriver\<close>

lemma hash_int_own: "n = hash_int n \<longleftrightarrow> (- (2 ^ 61 - 1) < n \<and> n < 2 ^ 61 - 1 \<and> n \<noteq> - 1)"
  unfolding hash_int_def Let_def
  by (auto simp: abs_if split: if_splits)

lemma enumerate_tail:
  "0 < n \<Longrightarrow>
   map (\<lambda>(i, ch). if isidentifier (take i ''A'' @ [ch]) then ch else CHR ''_'') (enumerate n cs)
     = map (\<lambda>ch. if id_continue ch then ch else CHR ''_'') cs"
proof (induction cs arbitrary: n)
  case Nil
  then show ?case by simp
next
  case (Cons c cs)
  from Cons.prems obtain m where m: "n = Suc m" by (cases n) auto
  have "take n ''A'' = ''A''" using m by simp
  then show ?case using Cons.IH [of "Suc n"] by (simp add: id_start_def xid_start_def)
qed

lemma replace_enumerate:
  "map (\<lambda>(i, ch). if isidentifier (take i ''A'' @ [ch]) then ch else CHR ''_'') (enumerate 0 s)
     = replace_illegal s"
proof (cases s)
  case Nil
  then show ?thesis by simp
next
  case (Cons c cs)
  then show ?thesis using enumerate_tail [of "Suc 0" cs] by simp
qed

lemma norm_name_normalized: "norm_name s = normalized_identifier s"
  unfolding norm_name_def normalized_identifier_def Let_def
  by (simp add: replace_enumerate)

lemma name_to_aliases_Cons: "\<exists>rest. name_to_aliases e name = name # rest"
  by (cases name) (auto simp: name_to_aliases_def)

lemma name_to_aliases_off: "name_to_aliases False name = [name]"
  by (simp add: name_to_aliases_def)

section \<open>Registering aliases\<close>

lemma map_of_register:
  "map_of (register name als al) x = (if x \<in> set als then Some name else map_of al x)"
  unfolding register_def
  by (induction als arbitrary: al) (auto simp: update_conv')

lemma add_alias_internal_ok:
  "map_of (aliases d) a = None \<or> map_of (aliases d) a = Some name \<Longrightarrow>
   add_alias_internal name a d = (Inr (), d\<lparr>aliases := AList.update a name (aliases d)\<rparr>)"
  by (auto simp: add_alias_internal_def)

lemma add_alias_internal_collision:
  "map_of (aliases d) a = Some t \<Longrightarrow> t \<noteq> name \<Longrightarrow>
   add_alias_internal name a d = (Inl (KeyError_already_alias a t), d)"
  by (simp add: add_alias_internal_def)

lemma add_alias_each_ok:
  "\<forall>a\<in>set als. map_of (aliases d) a = None \<or> map_of (aliases d) a = Some name \<Longrightarrow>
   add_alias_each name als d = (Inr (), d\<lparr>aliases := register name als (aliases d)\<rparr>)"
proof (induction als arbitrary: d)
  case Nil
  then show ?case by (simp add: register_def)
next
  case (Cons a als)
  let ?d = "d\<lparr>aliases := AList.update a name (aliases d)\<rparr>"
  have step: "add_alias_internal name a d = (Inr (), ?d)"
    using Cons.prems by (intro add_alias_internal_ok) simp
  have "\<forall>b\<in>set als. map_of (aliases ?d) b = None \<or> map_of (aliases ?d) b = Some name"
    using Cons.prems by (auto simp: update_conv')
  from Cons.IH [OF this] show ?case
    using step by (simp add: register_def)
qed

lemma add_alias_each_prefix:
  "\<forall>a\<in>set pre. map_of (aliases d) a = None \<or> map_of (aliases d) a = Some name \<Longrightarrow>
   map_of (aliases d) a = Some t \<Longrightarrow> t \<noteq> name \<Longrightarrow>
   add_alias_each name (pre @ a # post) d =
     (Inl (KeyError_already_alias a t), d\<lparr>aliases := register name pre (aliases d)\<rparr>)"
proof (induction pre arbitrary: d)
  case Nil
  then show ?case by (simp add: register_def add_alias_internal_collision)
next
  case (Cons b pre)
  let ?d = "d\<lparr>aliases := AList.update b name (aliases d)\<rparr>"
  have step: "add_alias_internal name b d = (Inr (), ?d)"
    using Cons.prems by (intro add_alias_internal_ok) simp
  have ne: "a \<noteq> b" using Cons.prems by auto
  have 1: "\<forall>c\<in>set pre. map_of (aliases ?d) c = None \<or> map_of (aliases ?d) c = Some name"
    using Cons.prems by (auto simp: update_conv')
  have 2: "map_of (aliases ?d) a = Some t" using Cons.prems ne by (simp add: update_conv')
  from Cons.IH [OF 1 2 Cons.prems(3)] show ?case
    using step by (simp add: register_def)
qed

lemma add_alias_internal_frame:
  "add_alias_internal name a d = (r, d') \<Longrightarrow>
   items d' = items d \<and> expand d' = expand d \<and> vars d' = vars d \<and>
   (\<forall>x. map_of (aliases d) x \<noteq> None \<longrightarrow> map_of (aliases d') x = map_of (aliases d) x)"
  by (auto simp: add_alias_internal_def update_conv' split: option.splits if_splits)

lemma add_alias_each_frame:
  "add_alias_each name als d = (r, d') \<Longrightarrow>
   items d' = items d \<and> expand d' = expand d \<and> vars d' = vars d \<and>
   (\<forall>x. map_of (aliases d) x \<noteq> None \<longrightarrow> map_of (aliases d') x = map_of (aliases d) x)"
proof (induction als arbitrary: d)
  case Nil
  then show ?case by simp
next
  case (Cons a als)
  obtain r1 d1 where s: "add_alias_internal name a d = (r1, d1)"
    by (cases "add_alias_internal name a d")
  note f = add_alias_internal_frame [OF s]
  show ?case
  proof (cases r1)
    case (Inl e)
    then show ?thesis using Cons.prems s f by simp
  next
    case (Inr u)
    then have "add_alias_each name als d1 = (r, d')" using Cons.prems s by simp
    from Cons.IH [OF this] show ?thesis using f by (metis option.distinct(1) option.exhaust)
  qed
qed

lemma add_alias_each_error:
  "add_alias_each name als d = (Inl e, d') \<Longrightarrow>
   \<exists>a t. e = KeyError_already_alias a t \<and> a \<in> set als
         \<and> map_of (aliases d) a = Some t \<and> t \<noteq> name"
proof (induction als arbitrary: d)
  case Nil
  then show ?case by simp
next
  case (Cons b als)
  show ?case
  proof (cases "map_of (aliases d) b = None \<or> map_of (aliases d) b = Some name")
    case True
    let ?d = "d\<lparr>aliases := AList.update b name (aliases d)\<rparr>"
    have "add_alias_internal name b d = (Inr (), ?d)" using True by (rule add_alias_internal_ok)
    then have "add_alias_each name als ?d = (Inl e, d')" using Cons.prems by simp
    from Cons.IH [OF this] obtain a t where
      at: "e = KeyError_already_alias a t" "a \<in> set als" "map_of (aliases ?d) a = Some t"
        "t \<noteq> name"
      by blast
    then have "a \<noteq> b" by (auto simp: update_conv')
    then have "map_of (aliases d) a = Some t" using at(3) by (simp add: update_conv')
    then show ?thesis using at by auto
  next
    case False
    then obtain t where t: "map_of (aliases d) b = Some t" "t \<noteq> name" by auto
    then have "add_alias_internal name b d = (Inl (KeyError_already_alias b t), d)"
      by (rule add_alias_internal_collision)
    then show ?thesis using Cons.prems t by auto
  qed
qed

lemma add_alias_internal_Inr:
  "add_alias_internal name a d = (Inr u, d') \<Longrightarrow> d' = d\<lparr>aliases := AList.update a name (aliases d)\<rparr>"
  by (auto simp: add_alias_internal_def split: option.splits if_splits)

lemma add_alias_each_Inr:
  "add_alias_each name als d = (Inr u, d') \<Longrightarrow> d' = d\<lparr>aliases := register name als (aliases d)\<rparr>"
proof (induction als arbitrary: d)
  case Nil
  then show ?case by (simp add: register_def)
next
  case (Cons a als)
  obtain r1 d1 where s: "add_alias_internal name a d = (r1, d1)"
    by (cases "add_alias_internal name a d")
  then obtain u1 where r1: "r1 = Inr u1" using Cons.prems by (cases r1) auto
  then have d1: "d1 = d\<lparr>aliases := AList.update a name (aliases d)\<rparr>"
    using s add_alias_internal_Inr by blast
  have "add_alias_each name als d1 = (Inr u, d')" using Cons.prems s r1 by simp
  from Cons.IH [OF this] show ?case using d1 by (simp add: register_def)
qed

section \<open>Storing and reading items\<close>

lemma str_int_0: "str_int 0 = ''0''" by (simp add: str_int_def str_nat.simps digit_char_def)
lemma str_int_1: "str_int 1 = ''1''" by (simp add: str_int_def str_nat.simps digit_char_def)
lemma str_int_123: "str_int 123 = ''123''" by code_simp
lemma aliases_123: "name_to_aliases True (KInt 123) = [KInt 123, KStr ''_123'']" by code_simp
lemma aliases_two_words:
  "name_to_aliases True (KStr ''two words'') = [KStr ''two words'', KStr ''two_words'']"
  by code_simp

lemma setitem_create:
  assumes "map_of (aliases d) k = None" "\<not> contains d k"
    and "\<forall>a\<in>set (name_to_aliases (expand d) k). map_of (aliases d) a = None \<or> map_of (aliases d) a = Some k"
  shows "setitem k v d =
     (Inr (), d\<lparr>items := AList.update k v (items d),
                aliases := register k (name_to_aliases (expand d) k) (aliases d)\<rparr>)"
  using assms add_alias_each_ok [of "name_to_aliases (expand d) k" d k]
  by (simp add: setitem_def dict_setitem_def)

lemma setitem_redirect:
  "map_of (aliases d) name = Some k \<Longrightarrow>
   setitem name v d = (Inr (), d\<lparr>items := AList.update k v (items d)\<rparr>)"
  by (simp add: setitem_def dict_setitem_def)

lemma getitem_resolved:
  "map_of (aliases d) a = Some k \<Longrightarrow> map_of (items d) k = Some v \<Longrightarrow> getitem a d = Inr v"
  by (simp add: getitem_def get_key_def)

lemma getitem_unresolved:
  "map_of (aliases d) a = None \<Longrightarrow> getitem a d = Inl (KeyError_get_key a)"
  by (simp add: getitem_def get_key_def)

lemma setitem_then_getitem:
  assumes "setitem k v d = (Inr (), d')" "map_of (aliases d') k = Some t" "map_of (aliases d') a = Some t"
  shows "getitem a d' = Inr v"
proof (cases "map_of (aliases d) k")
  case (Some t')
  then have d': "d' = d\<lparr>items := AList.update t' v (items d)\<rparr>"
    using assms(1) by (simp add: setitem_redirect)
  then have "t = t'" using assms(2) Some by simp
  then show ?thesis using d' assms(3) by (intro getitem_resolved [of _ _ t]) (simp_all add: update_conv')
next
  case None
  show ?thesis
  proof (cases "contains d k")
    case True
    then have "d' = dict_setitem k v d" using None assms(1) by (simp add: setitem_def)
    then show ?thesis using None assms(2) by (simp add: dict_setitem_def)
  next
    case False
    obtain r d1 where e: "add_alias_each k (name_to_aliases (expand d) k) d = (r, d1)"
      by (cases "add_alias_each k (name_to_aliases (expand d) k) d")
    then have r: "r = Inr ()" and d': "d' = dict_setitem k v d1"
      using None False assms(1) by (auto simp: setitem_def split: sum.splits)
    have d1: "d1 = d\<lparr>aliases := register k (name_to_aliases (expand d) k) (aliases d)\<rparr>"
      using e r add_alias_each_Inr by blast
    obtain rest where "name_to_aliases (expand d) k = k # rest"
      using name_to_aliases_Cons by blast
    then have "map_of (aliases d') k = Some k"
      using d' d1 by (simp add: dict_setitem_def map_of_register)
    then have "t = k" using assms(2) by simp
    then show ?thesis using d' assms(3)
      by (intro getitem_resolved [of _ _ t]) (simp_all add: dict_setitem_def update_conv')
  qed
qed


section \<open>Alias transparency\<close>



lemma plain_two_words_dict_built:
  "with_expand False (setitem (KStr ''two words'') 1) (empty_dict True)
     = (Inr (), plain_two_words_dict)"
  by code_simp


section \<open>Aliases of integer-like keys\<close>

text \<open>
  Claim C8. With expansion enabled, a key that equals its own hash is an integer \<open>n\<close>
  (\<open>hash_int_own\<close> says which), and the deriver returns the key, then the text \<open>_\<close>
  followed by the decimal form of \<open>n\<close>, then \<open>_False\<close> when \<open>n\<close> is 0 and \<open>_True\<close> when
  \<open>n\<close> is 1, and nothing else. The boolean keys get \<open>_0\<close>, \<open>_False\<close> and \<open>_1\<close>, \<open>_True\<close>.
  With expansion disabled the result is the one-element list of the key, for every key.
\<close>

theorem int_like_key_aliases:
  "(n = hash_int n \<longrightarrow>
      name_to_aliases True (KInt n) =
        [KInt n, KStr (''_'' @ str_int n)]
        @ (if n = 0 then [KStr ''_False''] else if n = 1 then [KStr ''_True''] else []))
   \<and> name_to_aliases True (key_of_bool b) =
        [key_of_bool b, KStr (if b then ''_1'' else ''_0''),
         KStr (if b then ''_True'' else ''_False'')]
   \<and> name_to_aliases False name = [name]"
  by (auto simp: name_to_aliases_def str_bool_def key_of_bool_def hash_int_def str_int_0 str_int_1)

theorem int_like_key_aliases_witness:
  "(123::int) = hash_int 123
   \<and> name_to_aliases True (KInt 123) = [KInt 123, KStr ''_123'']
   \<and> name_to_aliases True (KInt 1) = [KInt 1, KStr ''_1'', KStr ''_True'']"
proof -
  have h: "(123::int) = hash_int 123" by (simp add: hash_int_def)
  have h1: "(1::int) = hash_int 1" by (simp add: hash_int_def)
  show ?thesis
    using h h1 int_like_key_aliases [of 123 True "KInt 0"] int_like_key_aliases [of 1 True "KInt 0"]
    by (simp add: str_int_123 str_int_1)
qed

section \<open>The scope of an expansion override\<close>

text \<open>
  Claim C7. \<open>with expand(ok): body\<close> runs the body with the class flag set to \<open>ok\<close> and
  returns what the body returns, with the flag set back to the value it had on entry.
  The flag is back at its entry value whatever the body did, also when the body raised an
  error \<open>e\<close>. An inner scope entered while an outer scope has set the flag to \<open>outer_ok\<close>
  leaves the flag at \<open>outer_ok\<close>. Inside a disabling scope \<open>set(123, v)\<close> leaves the
  registration of the alias \<open>_123\<close> as it was, in every container. Under the enabled flag,
  in a container where neither 123 nor \<open>_123\<close> is registered and 123 is not an item,
  \<open>set(123, v)\<close> succeeds and registers \<open>_123\<close> for 123.
\<close>

theorem expand_scope:
  "with_expand ok body d =
     (fst (body (d\<lparr>expand := ok\<rparr>)), (snd (body (d\<lparr>expand := ok\<rparr>)))\<lparr>expand := expand d\<rparr>)
   \<and> expand (snd (with_expand ok body d)) = expand d
   \<and> with_expand ok (\<lambda>s. (Inl e, f s)) d = (Inl e, (f (d\<lparr>expand := ok\<rparr>))\<lparr>expand := expand d\<rparr>)
   \<and> expand (snd (with_expand inner_ok body (d\<lparr>expand := outer_ok\<rparr>))) = outer_ok
   \<and> map_of (aliases (snd (with_expand False (setitem (KInt 123) v) d))) (KStr ''_123'')
       = map_of (aliases d) (KStr ''_123'')
   \<and> (expand d \<and> map_of (aliases d) (KInt 123) = None \<and> \<not> contains d (KInt 123)
        \<and> map_of (aliases d) (KStr ''_123'') = None \<longrightarrow>
       (\<exists>d'. setitem (KInt 123) v d = (Inr (), d')
            \<and> map_of (aliases d') (KStr ''_123'') = Some (KInt 123)))"
proof -
  have A: "with_expand ok body d =
     (fst (body (d\<lparr>expand := ok\<rparr>)), (snd (body (d\<lparr>expand := ok\<rparr>)))\<lparr>expand := expand d\<rparr>)"
    by (simp add: with_expand_def Let_def split: prod.splits)
  have B: "expand (snd (with_expand ok body d)) = expand d"
    by (simp add: with_expand_def Let_def split: prod.splits)
  have B': "expand (snd (with_expand inner_ok body (d\<lparr>expand := outer_ok\<rparr>))) = outer_ok"
    by (simp add: with_expand_def Let_def split: prod.splits)
  have C: "with_expand ok (\<lambda>s. (Inl e, f s)) d = (Inl e, (f (d\<lparr>expand := ok\<rparr>))\<lparr>expand := expand d\<rparr>)"
    by (simp add: with_expand_def)
  have D: "map_of (aliases (snd (with_expand False (setitem (KInt 123) v) d))) (KStr ''_123'')
       = map_of (aliases d) (KStr ''_123'')"
    by (auto simp: with_expand_def setitem_def dict_setitem_def name_to_aliases_off
          add_alias_internal_def update_conv' split: option.splits)
  have E: "expand d \<and> map_of (aliases d) (KInt 123) = None \<and> \<not> contains d (KInt 123)
        \<and> map_of (aliases d) (KStr ''_123'') = None \<longrightarrow>
       (\<exists>d'. setitem (KInt 123) v d = (Inr (), d')
            \<and> map_of (aliases d') (KStr ''_123'') = Some (KInt 123))"
    using setitem_create [of d "KInt 123" v] by (auto simp: aliases_123 map_of_register)
  show ?thesis by (intro conjI A B B' C D E)
qed

theorem expand_scope_witness:
  "map_of (aliases (snd (with_expand False (setitem (KInt 123) ''x'') (empty_dict True))))
     (KStr ''_123'') = None
   \<and> expand (snd (with_expand False (setitem (KInt 123) ''x'') (empty_dict True)))
   \<and> map_of (aliases (snd (setitem (KInt 123) ''x'' (empty_dict True)))) (KStr ''_123'')
       = Some (KInt 123)"
proof -
  let ?d = "empty_dict True :: string cleverdict"
  note t = expand_scope [where d = ?d and ok = False
      and body = "setitem (KInt 123) ''x''" and v = "''x''"]
  have h: "expand ?d \<and> map_of (aliases ?d) (KInt 123) = None \<and> \<not> contains ?d (KInt 123)
        \<and> map_of (aliases ?d) (KStr ''_123'') = None"
    by (simp add: empty_dict_def contains_def)
  note rest = t [THEN conjunct2]
  note restored = rest [THEN conjunct1]
  note tail = rest [THEN conjunct2, THEN conjunct2, THEN conjunct2]
  note disabled = tail [THEN conjunct1]
  note enabled = tail [THEN conjunct2]
  have 1: "map_of (aliases (snd (with_expand False (setitem (KInt 123) ''x'') ?d)))
      (KStr ''_123'') = None"
    using disabled h by simp
  have 2: "expand (snd (with_expand False (setitem (KInt 123) ''x'') ?d))"
    using restored h by simp
  from enabled [rule_format, OF h] obtain d' where
    d': "setitem (KInt 123) ''x'' ?d = (Inr (), d')"
      "map_of (aliases d') (KStr ''_123'') = Some (KInt 123)"
    by (elim exE conjE)
  have 3: "map_of (aliases (snd (setitem (KInt 123) ''x'' ?d))) (KStr ''_123'')
      = Some (KInt 123)"
    using d' by simp
  show ?thesis by (intro conjI 1 2 3)
qed

section \<open>Aliases of text keys\<close>

text \<open>
  Claim C9. With expansion enabled, the deriver maps a text key \<open>s\<close> to the key itself,
  followed by the normalized identifier form of \<open>s\<close> exactly when that form differs from
  \<open>s\<close>. The normalized form is \<open>normalized_identifier\<close>: an underscore is put in front
  when the text is empty, starts with a digit or is a keyword, and then every character that
  is not legal at its position (identifier start for the first, identifier continuation for
  the others) is replaced by an underscore. Hence, with expansion enabled, in a container
  where neither \<open>two words\<close> nor \<open>two_words\<close> is registered, \<open>set("two words", v)\<close>
  registers the alias \<open>two_words\<close>, and \<open>get("two_words")\<close> returns \<open>v\<close>.
\<close>

theorem text_key_aliases:
  "name_to_aliases True (KStr s) =
     KStr s # (if normalized_identifier s \<noteq> s then [KStr (normalized_identifier s)] else [])
   \<and> (expand d \<and> map_of (aliases d) (KStr ''two words'') = None
        \<and> \<not> contains d (KStr ''two words'') \<and> map_of (aliases d) (KStr ''two_words'') = None \<longrightarrow>
       (\<exists>d'. setitem (KStr ''two words'') v d = (Inr (), d')
            \<and> map_of (aliases d') (KStr ''two_words'') = Some (KStr ''two words'')
            \<and> getitem (KStr ''two_words'') d' = Inr v))"
proof -
  have A: "name_to_aliases True (KStr s) =
     KStr s # (if normalized_identifier s \<noteq> s then [KStr (normalized_identifier s)] else [])"
    by (auto simp: name_to_aliases_def text_aliases_def norm_name_normalized)
  have B: "expand d \<and> map_of (aliases d) (KStr ''two words'') = None
        \<and> \<not> contains d (KStr ''two words'') \<and> map_of (aliases d) (KStr ''two_words'') = None \<longrightarrow>
       (\<exists>d'. setitem (KStr ''two words'') v d = (Inr (), d')
            \<and> map_of (aliases d') (KStr ''two_words'') = Some (KStr ''two words'')
            \<and> getitem (KStr ''two_words'') d' = Inr v)"
    using setitem_create [of d "KStr ''two words''" v]
    by (auto simp: aliases_two_words map_of_register update_conv' intro!: getitem_resolved)
  show ?thesis by (intro conjI A B)
qed

lemma normalized_two_words: "normalized_identifier ''two words'' = ''two_words''"
  by code_simp

theorem text_key_aliases_witness:
  "name_to_aliases True (KStr ''two words'') = [KStr ''two words'', KStr ''two_words'']
   \<and> getitem (KStr ''two_words'') (snd (setitem (KStr ''two words'') (5::nat) (empty_dict True)))
       = Inr 5"
proof -
  let ?d = "empty_dict True :: nat cleverdict"
  note t = text_key_aliases [of "''two words''" ?d 5]
  have h: "expand ?d \<and> map_of (aliases ?d) (KStr ''two words'') = None
        \<and> \<not> contains ?d (KStr ''two words'') \<and> map_of (aliases ?d) (KStr ''two_words'') = None"
    by (simp add: empty_dict_def contains_def)
  from t have 1: "name_to_aliases True (KStr ''two words'')
      = [KStr ''two words'', KStr ''two_words'']"
    by (simp add: normalized_two_words)
  from t h obtain d' where "setitem (KStr ''two words'') 5 ?d = (Inr (), d')"
    "getitem (KStr ''two_words'') d' = Inr 5"
    by blast
  then have 2: "getitem (KStr ''two_words'') (snd (setitem (KStr ''two words'') 5 ?d)) = Inr 5"
    by simp
  show ?thesis using 1 2 by blast
qed

section \<open>Collisions\<close>

lemma add_alias_each_Inr_pre:
  "add_alias_each name als d = (Inr u, d') \<Longrightarrow>
   \<forall>a\<in>set als. map_of (aliases d) a = None \<or> map_of (aliases d) a = Some name"
proof (induction als arbitrary: d)
  case Nil
  then show ?case by simp
next
  case (Cons b als)
  obtain r1 d1 where s: "add_alias_internal name b d = (r1, d1)"
    by (cases "add_alias_internal name b d")
  then obtain u1 where r1: "r1 = Inr u1" using Cons.prems by (cases r1) auto
  have b: "map_of (aliases d) b = None \<or> map_of (aliases d) b = Some name"
    using s r1 by (auto simp: add_alias_internal_def split: option.splits if_splits)
  have d1: "d1 = d\<lparr>aliases := AList.update b name (aliases d)\<rparr>"
    using s r1 add_alias_internal_Inr by blast
  have "add_alias_each name als d1 = (Inr u, d')" using Cons.prems s r1 by simp
  from Cons.IH [OF this] have
    "\<forall>a\<in>set als. map_of (aliases d1) a = None \<or> map_of (aliases d1) a = Some name" .
  then have "\<forall>a\<in>set als. map_of (aliases d) a = None \<or> map_of (aliases d) a = Some name"
    using d1 b by (auto simp: update_conv' split: if_splits)
  then show ?case using b by simp
qed

lemma add_alias_loop_frame:
  "add_alias_loop k als d = (r, d') \<Longrightarrow>
   items d' = items d \<and> expand d' = expand d \<and> vars d' = vars d \<and>
   (\<forall>x. map_of (aliases d) x \<noteq> None \<longrightarrow> map_of (aliases d') x = map_of (aliases d) x)"
proof (induction als arbitrary: d)
  case Nil
  then show ?case by simp
next
  case (Cons al als)
  obtain r1 d1 where s: "add_alias_each k (name_to_aliases (expand d) al) d = (r1, d1)"
    by (cases "add_alias_each k (name_to_aliases (expand d) al) d")
  note f = add_alias_each_frame [OF s]
  show ?case
  proof (cases r1)
    case (Inl e)
    then show ?thesis using Cons.prems s f by simp
  next
    case (Inr u)
    then have "add_alias_loop k als d1 = (r, d')" using Cons.prems s by simp
    from Cons.IH [OF this] show ?thesis using f by (metis option.distinct(1) option.exhaust)
  qed
qed

lemma add_alias_loop_collides:
  "a \<in> set als \<Longrightarrow> map_of (aliases d) a = Some k1 \<Longrightarrow> k1 \<noteq> k \<Longrightarrow>
   \<exists>a' t. fst (add_alias_loop k als d) = Inl (KeyError_already_alias a' t)
         \<and> map_of (aliases d) a' = Some t \<and> t \<noteq> k"
proof (induction als arbitrary: d)
  case Nil
  then show ?case by simp
next
  case (Cons al als)
  obtain r1 d1 where s: "add_alias_each k (name_to_aliases (expand d) al) d = (r1, d1)"
    by (cases "add_alias_each k (name_to_aliases (expand d) al) d")
  show ?case
  proof (cases r1)
    case (Inl e)
    have f: "fst (add_alias_loop k (al # als) d) = Inl e" using s Inl by simp
    from add_alias_each_error [OF s [unfolded Inl]] show ?thesis
      unfolding f by blast
  next
    case (Inr u)
    note pre = add_alias_each_Inr_pre [OF s [unfolded Inr]]
    have d1: "d1 = d\<lparr>aliases := register k (name_to_aliases (expand d) al) (aliases d)\<rparr>"
      using s Inr add_alias_each_Inr by blast
    obtain rest where c: "name_to_aliases (expand d) al = al # rest"
      using name_to_aliases_Cons by blast
    have notin: "a \<notin> set (name_to_aliases (expand d) al)"
      using pre Cons.prems(2,3) by auto
    then have "a \<noteq> al" using c by auto
    then have a: "a \<in> set als" using Cons.prems(1) by simp
    have "map_of (aliases d1) a = Some k1" using d1 notin Cons.prems(2) by (simp add: map_of_register)
    from Cons.IH [OF a this Cons.prems(3)] obtain a' t where
      at: "fst (add_alias_loop k als d1) = Inl (KeyError_already_alias a' t)"
        "map_of (aliases d1) a' = Some t" "t \<noteq> k"
      by blast
    have "map_of (aliases d) a' = Some t"
      using at(2,3) d1 by (auto simp: map_of_register split: if_splits)
    then show ?thesis using at s Inr by auto
  qed
qed

lemma two_words_dict_built:
  "init no_dictionary True [(KStr ''two_words'', 1)] None [] [] = (Some (Inr ()), two_words_dict)"
  by code_simp

text \<open>
  Claim C4. Let the alias \<open>a\<close> resolve to \<open>k1\<close>, and let \<open>k2\<close> differ from \<open>k1\<close>.
  The registration step for \<open>a\<close> and \<open>k2\<close> raises the error that names \<open>a\<close> and \<open>k1\<close> and
  changes nothing. So does \<open>add_alias(name, a)\<close> when \<open>name\<close> resolves to \<open>k2\<close>; with a list
  of aliases that contains \<open>a\<close> it raises the error that names the first colliding alias and
  the key that alias resolved to, and the items and every alias registered before are as
  they were. \<open>set(k2, v)\<close> for a key \<open>k2\<close> that is neither registered nor an item, whose
  derived aliases reach \<open>a\<close> after aliases that are free or resolve to \<open>k2\<close>, raises the
  error that names \<open>a\<close> and \<open>k1\<close>, and the items and every alias registered before are as
  they were. The registration step for \<open>a\<close> and \<open>k1\<close> itself succeeds and changes nothing,
  and so does \<open>add_alias(name, a)\<close> with expansion disabled when \<open>name\<close> resolves to \<open>k1\<close>.
\<close>

theorem collision_rejected:
  assumes "map_of (aliases d) a = Some k1" "k1 \<noteq> k2"
  shows "add_alias_internal k2 a d = (Inl (KeyError_already_alias a k1), d)
    \<and> (map_of (aliases d) name = Some k2 \<longrightarrow>
         add_alias name (Scalar a) d = (Inl (KeyError_already_alias a k1), d))
    \<and> (map_of (aliases d) name = Some k2 \<and> a \<in> set als \<longrightarrow>
         (\<exists>a' t d'. add_alias name (Several als) d = (Inl (KeyError_already_alias a' t), d')
            \<and> map_of (aliases d) a' = Some t \<and> t \<noteq> k2 \<and> items d' = items d
            \<and> (\<forall>x. map_of (aliases d) x \<noteq> None \<longrightarrow> map_of (aliases d') x = map_of (aliases d) x)))
    \<and> (map_of (aliases d) k2 = None \<and> \<not> contains d k2
          \<and> name_to_aliases (expand d) k2 = pre @ a # post
          \<and> (\<forall>x\<in>set pre. map_of (aliases d) x = None \<or> map_of (aliases d) x = Some k2) \<longrightarrow>
         (\<exists>d'. setitem k2 v d = (Inl (KeyError_already_alias a k1), d')
            \<and> items d' = items d
            \<and> (\<forall>x. map_of (aliases d) x \<noteq> None \<longrightarrow> map_of (aliases d') x = map_of (aliases d) x)))
    \<and> add_alias_internal k1 a d = (Inr (), d)
    \<and> (\<not> expand d \<and> map_of (aliases d) name = Some k1 \<longrightarrow>
         add_alias name (Scalar a) d = (Inr (), d))"
proof -
  have 1: "add_alias_internal k2 a d = (Inl (KeyError_already_alias a k1), d)"
    using assms by (rule add_alias_internal_collision)
  obtain rest where c: "name_to_aliases (expand d) a = a # rest"
    using name_to_aliases_Cons by blast
  have 2: "map_of (aliases d) name = Some k2 \<longrightarrow>
         add_alias name (Scalar a) d = (Inl (KeyError_already_alias a k1), d)"
    using 1 c by (simp add: add_alias_def get_key_def)
  have 3: "map_of (aliases d) name = Some k2 \<and> a \<in> set als \<longrightarrow>
         (\<exists>a' t d'. add_alias name (Several als) d = (Inl (KeyError_already_alias a' t), d')
            \<and> map_of (aliases d) a' = Some t \<and> t \<noteq> k2 \<and> items d' = items d
            \<and> (\<forall>x. map_of (aliases d) x \<noteq> None \<longrightarrow> map_of (aliases d') x = map_of (aliases d) x))"
  proof (intro impI, elim conjE)
    assume n: "map_of (aliases d) name = Some k2" and a: "a \<in> set als"
    obtain r d' where s: "add_alias_loop k2 als d = (r, d')" by (cases "add_alias_loop k2 als d")
    from add_alias_loop_collides [OF a assms] obtain a' t where
      "fst (add_alias_loop k2 als d) = Inl (KeyError_already_alias a' t)"
      "map_of (aliases d) a' = Some t" "t \<noteq> k2"
      by blast
    then show "\<exists>a' t d'. add_alias name (Several als) d = (Inl (KeyError_already_alias a' t), d')
            \<and> map_of (aliases d) a' = Some t \<and> t \<noteq> k2 \<and> items d' = items d
            \<and> (\<forall>x. map_of (aliases d) x \<noteq> None \<longrightarrow> map_of (aliases d') x = map_of (aliases d) x)"
      using s n add_alias_loop_frame [OF s] by (simp add: add_alias_def get_key_def)
  qed
  have 4: "map_of (aliases d) k2 = None \<and> \<not> contains d k2
          \<and> name_to_aliases (expand d) k2 = pre @ a # post
          \<and> (\<forall>x\<in>set pre. map_of (aliases d) x = None \<or> map_of (aliases d) x = Some k2) \<longrightarrow>
         (\<exists>d'. setitem k2 v d = (Inl (KeyError_already_alias a k1), d')
            \<and> items d' = items d
            \<and> (\<forall>x. map_of (aliases d) x \<noteq> None \<longrightarrow> map_of (aliases d') x = map_of (aliases d) x))"
  proof (intro impI, elim conjE)
    assume h: "map_of (aliases d) k2 = None" "\<not> contains d k2"
      "name_to_aliases (expand d) k2 = pre @ a # post"
      "\<forall>x\<in>set pre. map_of (aliases d) x = None \<or> map_of (aliases d) x = Some k2"
    let ?d' = "d\<lparr>aliases := register k2 pre (aliases d)\<rparr>"
    have e: "add_alias_each k2 (pre @ a # post) d = (Inl (KeyError_already_alias a k1), ?d')"
      using h(4) assms by (rule add_alias_each_prefix)
    then have "setitem k2 v d = (Inl (KeyError_already_alias a k1), ?d')"
      using h by (simp add: setitem_def)
    moreover have "\<forall>x. map_of (aliases d) x \<noteq> None \<longrightarrow> map_of (aliases ?d') x = map_of (aliases d) x"
      using h(4) by (auto simp: map_of_register)
    ultimately show "\<exists>d'. setitem k2 v d = (Inl (KeyError_already_alias a k1), d')
            \<and> items d' = items d
            \<and> (\<forall>x. map_of (aliases d) x \<noteq> None \<longrightarrow> map_of (aliases d') x = map_of (aliases d) x)"
      by auto
  qed
  have 5: "add_alias_internal k1 a d = (Inr (), d)"
    using assms(1) by (simp add: add_alias_internal_def update_triv)
  have 6: "\<not> expand d \<and> map_of (aliases d) name = Some k1 \<longrightarrow>
         add_alias name (Scalar a) d = (Inr (), d)"
    using 5 by (simp add: add_alias_def get_key_def name_to_aliases_off)
  show ?thesis by (intro conjI 1 2 3 4 5 6)
qed

theorem collision_rejected_witness:
  "fst (setitem (KStr ''two words'') 5 two_words_dict)
     = Inl (KeyError_already_alias (KStr ''two_words'') (KStr ''two_words''))
   \<and> items (snd (setitem (KStr ''two words'') 5 two_words_dict)) = items two_words_dict
   \<and> add_alias_internal (KStr ''two words'') (KStr ''two_words'') two_words_dict
       = (Inl (KeyError_already_alias (KStr ''two_words'') (KStr ''two_words'')), two_words_dict)
   \<and> add_alias_internal (KStr ''two_words'') (KStr ''two_words'') two_words_dict
       = (Inr (), two_words_dict)"
proof -
  have h1: "map_of (aliases two_words_dict) (KStr ''two_words'') = Some (KStr ''two_words'')"
    by (simp add: two_words_dict_def)
  have h2: "KStr ''two_words'' \<noteq> KStr ''two words''" by simp
  note t = collision_rejected [where pre = "[KStr ''two words'']" and post = "[]" and v = 5,
      OF h1 h2]
  note t1 = t [THEN conjunct1]
  note t4 = t [THEN conjunct2, THEN conjunct2, THEN conjunct2, THEN conjunct1]
  note t5 = t [THEN conjunct2, THEN conjunct2, THEN conjunct2, THEN conjunct2, THEN conjunct1]
  have h4: "map_of (aliases two_words_dict) (KStr ''two words'') = None
      \<and> \<not> contains two_words_dict (KStr ''two words'')
      \<and> name_to_aliases (expand two_words_dict) (KStr ''two words'')
          = [KStr ''two words''] @ KStr ''two_words'' # []
      \<and> (\<forall>x\<in>set [KStr ''two words''].
            map_of (aliases two_words_dict) x = None
            \<or> map_of (aliases two_words_dict) x = Some (KStr ''two words''))"
    by (simp add: two_words_dict_def contains_def aliases_two_words)
  from t4 [rule_format, OF h4] obtain d' where
    d': "setitem (KStr ''two words'') 5 two_words_dict
          = (Inl (KeyError_already_alias (KStr ''two_words'') (KStr ''two_words'')), d')"
      "items d' = items two_words_dict"
    by blast
  have 1: "fst (setitem (KStr ''two words'') 5 two_words_dict)
     = Inl (KeyError_already_alias (KStr ''two_words'') (KStr ''two_words''))"
    using d' by simp
  have 2: "items (snd (setitem (KStr ''two words'') 5 two_words_dict)) = items two_words_dict"
    using d' by simp
  show ?thesis by (intro conjI 1 2 t1 t5)
qed

section \<open>Adding aliases\<close>

lemma x_dict_built: "init no_dictionary True [(KStr ''x'', 1)] None [] [] = (Some (Inr ()), x_dict)"
  by code_simp

lemma add_alias_loop_ok:
  "\<forall>al\<in>set als. \<forall>x\<in>set (name_to_aliases (expand d) al).
      map_of (aliases d) x = None \<or> map_of (aliases d) x = Some k \<Longrightarrow>
   \<exists>d'. add_alias_loop k als d = (Inr (), d') \<and> items d' = items d \<and> expand d' = expand d
      \<and> vars d' = vars d
      \<and> (\<forall>x. map_of (aliases d') x =
            (if x \<in> (\<Union>al\<in>set als. set (name_to_aliases (expand d) al)) then Some k
             else map_of (aliases d) x))"
proof (induction als arbitrary: d)
  case Nil
  then show ?case by simp
next
  case (Cons al als)
  let ?der = "name_to_aliases (expand d) al"
  let ?d1 = "d\<lparr>aliases := register k ?der (aliases d)\<rparr>"
  have s: "add_alias_each k ?der d = (Inr (), ?d1)"
    using Cons.prems by (intro add_alias_each_ok) simp
  have "\<forall>al\<in>set als. \<forall>x\<in>set (name_to_aliases (expand ?d1) al).
      map_of (aliases ?d1) x = None \<or> map_of (aliases ?d1) x = Some k"
    using Cons.prems by (simp add: map_of_register)
  from Cons.IH [OF this] obtain d' where
    d': "add_alias_loop k als ?d1 = (Inr (), d')" "items d' = items ?d1" "expand d' = expand ?d1"
      "vars d' = vars ?d1"
      "\<forall>x. map_of (aliases d') x =
            (if x \<in> (\<Union>al\<in>set als. set (name_to_aliases (expand ?d1) al)) then Some k
             else map_of (aliases ?d1) x)"
    by blast
  have "add_alias_loop k (al # als) d = (Inr (), d')" using s d'(1) by simp
  moreover have "\<forall>x. map_of (aliases d') x =
            (if x \<in> (\<Union>al\<in>set (al # als). set (name_to_aliases (expand d) al)) then Some k
             else map_of (aliases d) x)"
    using d'(5) by (auto simp: map_of_register)
  ultimately show ?case using d'(2,3,4) by auto
qed

text \<open>
  Claim C3, as the code has it. \<open>add_alias\<close> derives the forms of each given alias with
  \<open>name_to_aliases\<close>, which reads the expansion flag. When \<open>name\<close> resolves to \<open>k\<close> and
  every form derived under the current flag is free or already resolves to \<open>k\<close>,
  \<open>add_alias(name, arg)\<close> succeeds, leaves the items alone, and afterwards exactly the
  forms derived under the current flag resolve to \<open>k\<close> in addition to what was registered
  before. With the flag disabled these forms are the given aliases themselves and no more.
\<close>

theorem add_alias_registers:
  assumes "map_of (aliases d) name = Some k"
    and "\<forall>al\<in>set (alias_list arg). \<forall>x\<in>set (name_to_aliases (expand d) al).
           map_of (aliases d) x = None \<or> map_of (aliases d) x = Some k"
  shows "\<exists>d'. add_alias name arg d = (Inr (), d') \<and> items d' = items d
      \<and> (\<forall>x. map_of (aliases d') x =
            (if x \<in> (\<Union>al\<in>set (alias_list arg). set (name_to_aliases (expand d) al)) then Some k
             else map_of (aliases d) x))
      \<and> (\<not> expand d \<longrightarrow>
           (\<forall>x. map_of (aliases d') x =
              (if x \<in> set (alias_list arg) then Some k else map_of (aliases d) x)))"
proof -
  from add_alias_loop_ok [OF assms(2)] obtain d' where
    d': "add_alias_loop k (alias_list arg) d = (Inr (), d')" "items d' = items d"
      "\<forall>x. map_of (aliases d') x =
            (if x \<in> (\<Union>al\<in>set (alias_list arg). set (name_to_aliases (expand d) al)) then Some k
             else map_of (aliases d) x)"
    by blast
  have "add_alias name arg d = (Inr (), d')"
    using assms(1) d'(1) by (simp add: add_alias_def get_key_def)
  moreover have "\<not> expand d \<longrightarrow>
           (\<forall>x. map_of (aliases d') x =
              (if x \<in> set (alias_list arg) then Some k else map_of (aliases d) x))"
    using d'(3) by (auto simp: name_to_aliases_off)
  ultimately show ?thesis using d'(2,3) by blast
qed

theorem add_alias_registers_witness:
  "fst (add_alias (KStr ''x'') (Scalar (KStr ''two words'')) x_dict) = Inr ()
   \<and> map_of (aliases (snd (add_alias (KStr ''x'') (Scalar (KStr ''two words'')) x_dict)))
        (KStr ''two_words'') = Some (KStr ''x'')
   \<and> map_of (aliases (snd (add_alias (KStr ''x'') (Scalar (KStr ''two words'')) x_dict)))
        (KStr ''two words'') = Some (KStr ''x'')"
proof -
  have h1: "map_of (aliases x_dict) (KStr ''x'') = Some (KStr ''x'')"
    by (simp add: x_dict_def)
  have h2: "\<forall>al\<in>set (alias_list (Scalar (KStr ''two words''))).
      \<forall>x\<in>set (name_to_aliases (expand x_dict) al).
        map_of (aliases x_dict) x = None \<or> map_of (aliases x_dict) x = Some (KStr ''x'')"
    by (simp add: x_dict_def aliases_two_words)
  from add_alias_registers [OF h1 h2] obtain d' where
    d': "add_alias (KStr ''x'') (Scalar (KStr ''two words'')) x_dict = (Inr (), d')"
      "\<forall>x. map_of (aliases d') x =
            (if x \<in> (\<Union>al\<in>set (alias_list (Scalar (KStr ''two words''))).
                       set (name_to_aliases (expand x_dict) al)) then Some (KStr ''x'')
             else map_of (aliases x_dict) x)"
    by blast
  have e: "expand x_dict" by (simp add: x_dict_def)
  have 1: "map_of (aliases d') (KStr ''two_words'') = Some (KStr ''x'')"
    using d'(2) e by (simp add: aliases_two_words)
  have 2: "map_of (aliases d') (KStr ''two words'') = Some (KStr ''x'')"
    using d'(2) e by (simp add: aliases_two_words)
  show ?thesis using d'(1) 1 2 by simp
qed

text \<open>
  Claim C3 as stated fails: inside \<open>with expand(False)\<close>, \<open>add_alias("x", "two words")\<close>
  on the container \<open>CleverDict({"x": 1})\<close> succeeds and registers \<open>two words\<close>, but not
  \<open>two_words\<close>, which full derivation yields.
\<close>

theorem add_alias_full_derivation_counterexample:
  "KStr ''two_words'' \<in> set (name_to_aliases True (KStr ''two words''))
   \<and> fst (with_expand False (add_alias (KStr ''x'') (Scalar (KStr ''two words''))) x_dict) = Inr ()
   \<and> map_of (aliases (snd (with_expand False
          (add_alias (KStr ''x'') (Scalar (KStr ''two words''))) x_dict))) (KStr ''two words'')
       = Some (KStr ''x'')
   \<and> map_of (aliases (snd (with_expand False
          (add_alias (KStr ''x'') (Scalar (KStr ''two words''))) x_dict))) (KStr ''two_words'')
       = None"
  by code_simp


section \<open>Equality\<close>

lemma x_alias_dict_built:
  "init no_dictionary True [(KStr ''x'', 1)] (Some [(KStr ''b'', KStr ''x'')]) [] []
     = (Some (Inr ()), x_alias_dict)"
  by code_simp

text \<open>
  Claim C1, as the code has it. Two containers are equal exactly when they have the same
  items, the same direct attributes beside the alias dictionary, and the same alias
  dictionary, each compared as a mapping (the keys of a dictionary are distinct). Two
  containers whose alias dictionaries differ are not equal.
\<close>

theorem eq_compares_aliases:
  assumes "distinct (map fst (items a))" "distinct (map fst (items b))"
    and "distinct (map fst (aliases a))" "distinct (map fst (aliases b))"
    and "distinct (map fst (vars a))" "distinct (map fst (vars b))"
  shows "(eq a b \<longleftrightarrow>
           (map_of (items a) = map_of (items b) \<and> map_of (vars a) = map_of (vars b)
            \<and> map_of (aliases a) = map_of (aliases b)))
         \<and> (map_of (aliases a) \<noteq> map_of (aliases b) \<longrightarrow> \<not> eq a b)"
  using assms by (auto simp: eq_def map_of_inject_set)

theorem eq_compares_aliases_witness:
  "eq x_dict x_dict \<and> \<not> eq x_dict x_alias_dict
   \<and> map_of (aliases x_dict) (KStr ''b'') \<noteq> map_of (aliases x_alias_dict) (KStr ''b'')"
proof -
  have d: "distinct (map fst (items x_dict))" "distinct (map fst (items x_alias_dict))"
    "distinct (map fst (aliases x_dict))" "distinct (map fst (aliases x_alias_dict))"
    "distinct (map fst (vars x_dict))" "distinct (map fst (vars x_alias_dict))"
    by (simp_all add: x_dict_def x_alias_dict_def)
  have ne: "map_of (aliases x_dict) (KStr ''b'') \<noteq> map_of (aliases x_alias_dict) (KStr ''b'')"
    by (simp add: x_dict_def x_alias_dict_def)
  then have "map_of (aliases x_dict) \<noteq> map_of (aliases x_alias_dict)" by metis
  then have 1: "\<not> eq x_dict x_alias_dict"
    using eq_compares_aliases [OF d(1) d(2) d(3) d(4) d(5) d(6), THEN conjunct1] by simp
  have 2: "eq x_dict x_dict"
    using eq_compares_aliases [OF d(1) d(1) d(3) d(3) d(5) d(5), THEN conjunct1] by simp
  show ?thesis by (intro conjI 1 2 ne)
qed

text \<open>
  Claim C1 as stated fails: \<open>CleverDict({"x": 1})\<close> and
  \<open>CleverDict({"x": 1}, _aliases={"b": "x"})\<close> have the same items, values and direct
  attributes and differ in their aliases only, and they are not equal.
\<close>

theorem eq_ignores_aliases_counterexample:
  "set (items x_dict) = set (items x_alias_dict) \<and> set (vars x_dict) = set (vars x_alias_dict)
   \<and> \<not> eq x_dict x_alias_dict"
  by (simp add: eq_def x_dict_def x_alias_dict_def)

section \<open>Deleting an alias\<close>

lemma two_keys_dict_built:
  "(case setitem (KStr ''x'') 0 (empty_dict True) of (_, d1) \<Rightarrow>
      case setitem (KStr ''_1'') 2 d1 of (_, d2) \<Rightarrow>
        add_alias (KStr ''_1'') (Scalar (KInt 1)) d2) = (Inr (), two_keys_dict)"
  by code_simp

text \<open>
  Claim C2 at a failing input. After \<open>d["x"] = 0; d["_1"] = 2; d.add_alias("_1", 1)\<close> the
  container satisfies I1, and 1 is an alias and not a key. With expansion enabled,
  \<open>delete_alias(1)\<close> succeeds and deletes, with the alias 1, the derived forms \<open>_1\<close> and
  \<open>_True\<close>: \<open>_1\<close> is the key of an item, and it is not at the front of the alias
  dictionary, which is the only position the inner loop spares. Afterwards I1 fails and
  \<open>get("_1")\<close> raises the error of \<open>get_key\<close>.
\<close>

theorem delete_alias_drops_key:
  "inv_I1 two_keys_dict
   \<and> contains two_keys_dict (KStr ''_1'')
   \<and> \<not> contains two_keys_dict (KInt 1)
   \<and> delete_alias (Scalar (KInt 1)) two_keys_dict
       = (Inr (), two_keys_dict\<lparr>aliases := [(KStr ''x'', KStr ''x'')]\<rparr>)
   \<and> \<not> inv_I1 (snd (delete_alias (Scalar (KInt 1)) two_keys_dict))
   \<and> getitem (KStr ''_1'') (snd (delete_alias (Scalar (KInt 1)) two_keys_dict))
       = Inl (KeyError_get_key (KStr ''_1''))"
  by code_simp

section \<open>Deleting an item\<close>

lemma stray_dict_built:
  "(case init no_dictionary True [] (Some [(KStr ''b'', KStr ''zzz'')]) [] [] of (_, d0) \<Rightarrow>
      case setitem (KStr ''b'') 1 d0 of (_, d1) \<Rightarrow>
        case setitem (KStr ''x'') 2 d1 of (_, d2) \<Rightarrow>
          add_alias (KStr ''x'') (Scalar (KStr ''zzz'')) d2) = (Inr (), stray_dict)"
  by code_simp

lemma fold_delete_filter:
  "fold (\<lambda>(ak, av) acc. if av = k then AList.delete ak acc else acc) xs acc
     = filter (\<lambda>p. (fst p, k) \<notin> set xs) acc"
proof (induction xs arbitrary: acc)
  case Nil
  then show ?case by simp
next
  case (Cons x xs)
  obtain ak av where x: "x = (ak, av)" by (cases x)
  show ?case
    by (auto simp: x Cons.IH AList.delete_eq intro!: filter_cong)
qed

lemma map_of_filter_fst:
  "map_of (filter (\<lambda>p. P (fst p)) al) x = (if P x then map_of al x else None)"
  by (induction al) auto

lemma map_of_purge_aliases:
  assumes "distinct (map fst al)"
  shows "map_of (purge_aliases k al) x = (if map_of al x = Some k then None else map_of al x)"
proof -
  have "map_of (purge_aliases k al) x = (if (x, k) \<notin> set al then map_of al x else None)"
    unfolding purge_aliases_def fold_delete_filter
    using map_of_filter_fst [of "\<lambda>a. (a, k) \<notin> set al" al x] by simp
  moreover have "(x, k) \<in> set al \<longleftrightarrow> map_of al x = Some k"
    using assms by (auto dest: map_of_SomeD)
  ultimately show ?thesis by simp
qed

lemma contains_delete: "\<not> contains (d\<lparr>items := AList.delete k (items d), aliases := al\<rparr>) k"
  using delete_notin_dom [of k "items d"] by (simp add: contains_def)

lemma attribute_access_unregistered:
  assumes "\<not> found_by_lookup inherited name d" "map_of (aliases d) (KStr name) = None"
  shows "attribute_access inherited name d = Inl (AttributeError (KeyError_get_key (KStr name)))"
  using assms
  by (simp add: attribute_access_def found_by_lookup_def getattr_def getitem_def get_key_def)

lemma expand_item_dict_built:
  "init no_dictionary True [(KStr ''expand'', 0)] None [] [] = (Some (Inr ()), expand_item_dict)"
  by code_simp

text \<open>
  After \<open>d = CleverDict({"expand": False}); del d["expand"]\<close> the name \<open>expand\<close> is no
  longer registered, and \<open>d.expand\<close> is the attribute of the class: the ordinary lookup
  finds it, and \<open>__getattr__\<close> is not called.
\<close>

lemma class_attribute_after_delete:
  "fst (delitem (KStr ''expand'') expand_item_dict) = Inr ()
   \<and> getitem (KStr ''expand'') (snd (delitem (KStr ''expand'') expand_item_dict))
       = Inl (KeyError_get_key (KStr ''expand''))
   \<and> attribute_access builtin_name ''expand'' (snd (delitem (KStr ''expand'') expand_item_dict))
       = Inr (Class_attribute ''expand'')"
  by code_simp

text \<open>
  After \<open>d = CleverDict({"x": 1}, _aliases={"b": "x"}); d.setattr_direct("b", 9);
  del d["b"]\<close> the name \<open>b\<close> is no longer registered, and \<open>d.b\<close> is the direct
  attribute.
\<close>

lemma direct_attribute_after_delete:
  "(case setattr_direct no_dictionary ''b'' 9 x_alias_dict of
      None \<Rightarrow> False
    | Some d \<Rightarrow>
        fst (delitem (KStr ''b'') d) = Inr ()
        \<and> getitem (KStr ''b'') (snd (delitem (KStr ''b'') d)) = Inl (KeyError_get_key (KStr ''b''))
        \<and> attribute_access builtin_name ''b'' (snd (delitem (KStr ''b'') d))
            = Inr (Direct_attribute 9))"
  by code_simp

text \<open>
  Claim C5, as the code has it. Let the alias \<open>a\<close> resolve to \<open>k\<close>, and let \<open>k\<close> be the
  key of an item; the keys of the alias dictionary are distinct, as in every dictionary.
  Then \<open>delete(a)\<close>, as an item deletion and as an attribute deletion, succeeds, removes
  the item \<open>k\<close>, leaves the direct attributes as they were, and removes from the alias
  dictionary exactly the aliases that resolved to \<open>k\<close>. Afterwards \<open>get\<close> on each of these
  former aliases raises the error of \<open>get_key\<close>, and so does \<open>get\<close> on \<open>k\<close> itself when
  \<open>k\<close> was registered as its own alias or was not registered. Reading a former alias that
  is a text \<open>name\<close> as an attribute, \<open>d.name\<close>, raises the attribute error that wraps the
  error of \<open>get_key\<close>, provided that the ordinary lookup does not find \<open>name\<close>: it is not
  an attribute or a method of the class, and not a direct attribute of the container; the
  same holds for \<open>k\<close> where it is a text and was not registered. This holds whatever names
  \<open>inherited\<close> says that the interpreter defines. Deleting a name \<open>b\<close> that resolves to
  nothing raises the error of \<open>get_key\<close>, wrapped in an attribute error for an attribute
  deletion, and changes nothing.
\<close>

theorem delete_purges_aliases:
  assumes "distinct (map fst (aliases d))" "map_of (aliases d) a = Some k" "contains d k"
  shows "\<exists>d'. delitem a d = (Inr (), d') \<and> delattr a d = (Inr (), d')
      \<and> items d' = AList.delete k (items d) \<and> \<not> contains d' k \<and> vars d' = vars d
      \<and> (\<forall>x. map_of (aliases d') x =
            (if map_of (aliases d) x = Some k then None else map_of (aliases d) x))
      \<and> (\<forall>x. map_of (aliases d) x = Some k \<longrightarrow> getitem x d' = Inl (KeyError_get_key x))
      \<and> (map_of (aliases d) k = None \<or> map_of (aliases d) k = Some k \<longrightarrow>
            getitem k d' = Inl (KeyError_get_key k))
      \<and> (\<forall>name. (map_of (aliases d) (KStr name) = Some k
                  \<or> (KStr name = k \<and> map_of (aliases d) k = None))
                 \<and> \<not> found_by_lookup inherited name d' \<longrightarrow>
            attribute_access inherited name d'
              = Inl (AttributeError (KeyError_get_key (KStr name))))
      \<and> (map_of (aliases d) b = None \<longrightarrow>
            delitem b d = (Inl (KeyError_get_key b), d)
            \<and> delattr b d = (Inl (AttributeError (KeyError_get_key b)), d))"
proof -
  let ?after = "d\<lparr>items := AList.delete k (items d), aliases := purge_aliases k (aliases d)\<rparr>"
  have s: "delitem a d = (Inr (), ?after)"
    using assms(2,3) by (simp add: delitem_def get_key_def)
  then have s': "delattr a d = (Inr (), ?after)" by (simp add: delattr_def)
  have m: "\<And>x. map_of (aliases ?after) x =
            (if map_of (aliases d) x = Some k then None else map_of (aliases d) x)"
    using assms(1) by (simp add: map_of_purge_aliases)
  have m': "\<forall>x. map_of (aliases ?after) x =
            (if map_of (aliases d) x = Some k then None else map_of (aliases d) x)"
    using m by blast
  have g: "\<And>x. map_of (aliases ?after) x = None \<Longrightarrow> getitem x ?after = Inl (KeyError_get_key x)"
    by (simp add: getitem_def get_key_def)
  have 1: "\<forall>x. map_of (aliases d) x = Some k \<longrightarrow> getitem x ?after = Inl (KeyError_get_key x)"
    using m g by simp
  have 2: "map_of (aliases d) k = None \<or> map_of (aliases d) k = Some k \<longrightarrow>
            getitem k ?after = Inl (KeyError_get_key k)"
    using m [of k] g [of k] by auto
  have 3: "map_of (aliases d) b = None \<longrightarrow>
            delitem b d = (Inl (KeyError_get_key b), d)
            \<and> delattr b d = (Inl (AttributeError (KeyError_get_key b)), d)"
    by (simp add: delattr_def delitem_def get_key_def)
  have 4: "\<not> contains ?after k" by (rule contains_delete)
  have 5: "items ?after = AList.delete k (items d)" by simp
  have 6: "vars ?after = vars d" by simp
  have 7: "\<forall>name. (map_of (aliases d) (KStr name) = Some k
                  \<or> (KStr name = k \<and> map_of (aliases d) k = None))
                 \<and> \<not> found_by_lookup inherited name ?after \<longrightarrow>
            attribute_access inherited name ?after
              = Inl (AttributeError (KeyError_get_key (KStr name)))"
  proof (intro allI impI)
    fix name
    assume h: "(map_of (aliases d) (KStr name) = Some k
                  \<or> (KStr name = k \<and> map_of (aliases d) k = None))
                 \<and> \<not> found_by_lookup inherited name ?after"
    then have "map_of (aliases ?after) (KStr name) = None" using m [of "KStr name"] by auto
    with h show "attribute_access inherited name ?after
              = Inl (AttributeError (KeyError_get_key (KStr name)))"
      by (intro attribute_access_unregistered) simp_all
  qed
  show ?thesis
    by (rule exI [of _ ?after]) (intro conjI s s' 5 4 6 m' 1 2 7 3)
qed

theorem delete_purges_aliases_witness:
  "fst (delitem (KStr ''b'') x_alias_dict) = Inr ()
   \<and> \<not> contains (snd (delitem (KStr ''b'') x_alias_dict)) (KStr ''x'')
   \<and> getitem (KStr ''x'') (snd (delitem (KStr ''b'') x_alias_dict))
       = Inl (KeyError_get_key (KStr ''x''))
   \<and> attribute_access builtin_name ''b'' (snd (delitem (KStr ''b'') x_alias_dict))
       = Inl (AttributeError (KeyError_get_key (KStr ''b'')))"
proof -
  have h1: "distinct (map fst (aliases x_alias_dict))" by (simp add: x_alias_dict_def)
  have h2: "map_of (aliases x_alias_dict) (KStr ''b'') = Some (KStr ''x'')"
    by (simp add: x_alias_dict_def)
  have h3: "contains x_alias_dict (KStr ''x'')" by (simp add: x_alias_dict_def contains_def)
  have h4: "map_of (aliases x_alias_dict) (KStr ''x'') = Some (KStr ''x'')"
    by (simp add: x_alias_dict_def)
  from delete_purges_aliases [OF h1 h2 h3, of builtin_name "KStr ''q''"] obtain d' where
    d': "delitem (KStr ''b'') x_alias_dict = (Inr (), d') \<and> delattr (KStr ''b'') x_alias_dict = (Inr (), d')
      \<and> items d' = AList.delete (KStr ''x'') (items x_alias_dict) \<and> \<not> contains d' (KStr ''x'')
      \<and> vars d' = vars x_alias_dict
      \<and> (\<forall>x. map_of (aliases d') x =
            (if map_of (aliases x_alias_dict) x = Some (KStr ''x'') then None
             else map_of (aliases x_alias_dict) x))
      \<and> (\<forall>x. map_of (aliases x_alias_dict) x = Some (KStr ''x'') \<longrightarrow>
            getitem x d' = Inl (KeyError_get_key x))
      \<and> (map_of (aliases x_alias_dict) (KStr ''x'') = None
          \<or> map_of (aliases x_alias_dict) (KStr ''x'') = Some (KStr ''x'') \<longrightarrow>
            getitem (KStr ''x'') d' = Inl (KeyError_get_key (KStr ''x'')))
      \<and> (\<forall>name. (map_of (aliases x_alias_dict) (KStr name) = Some (KStr ''x'')
                  \<or> (KStr name = KStr ''x'' \<and> map_of (aliases x_alias_dict) (KStr ''x'') = None))
                 \<and> \<not> found_by_lookup builtin_name name d' \<longrightarrow>
            attribute_access builtin_name name d'
              = Inl (AttributeError (KeyError_get_key (KStr name))))
      \<and> (map_of (aliases x_alias_dict) (KStr ''q'') = None \<longrightarrow>
            delitem (KStr ''q'') x_alias_dict = (Inl (KeyError_get_key (KStr ''q'')), x_alias_dict)
            \<and> delattr (KStr ''q'') x_alias_dict
                = (Inl (AttributeError (KeyError_get_key (KStr ''q''))), x_alias_dict))" ..
  note s = d' [THEN conjunct1]
  note r = d' [THEN conjunct2, THEN conjunct2]
  note c = r [THEN conjunct2, THEN conjunct1]
  note r' = r [THEN conjunct2, THEN conjunct2]
  note v = r' [THEN conjunct1]
  note kk = r' [THEN conjunct2, THEN conjunct2, THEN conjunct2, THEN conjunct1]
  note at = r' [THEN conjunct2, THEN conjunct2, THEN conjunct2, THEN conjunct2, THEN conjunct1]
  have nf: "\<not> found_by_lookup builtin_name ''b'' d'"
    using v
    by (simp add: found_by_lookup_def builtin_name_def data_descriptor_names_def
        cleverdict_names_def x_alias_dict_def)
  have 1: "fst (delitem (KStr ''b'') x_alias_dict) = Inr ()" using s by simp
  have 2: "\<not> contains (snd (delitem (KStr ''b'') x_alias_dict)) (KStr ''x'')" using s c by simp
  have 3: "getitem (KStr ''x'') (snd (delitem (KStr ''b'') x_alias_dict))
       = Inl (KeyError_get_key (KStr ''x''))"
    using s kk h4 by simp
  have "attribute_access builtin_name ''b'' d'
       = Inl (AttributeError (KeyError_get_key (KStr ''b'')))"
    using at [rule_format, of "''b''"] h2 nf by simp
  then have 4: "attribute_access builtin_name ''b'' (snd (delitem (KStr ''b'') x_alias_dict))
       = Inl (AttributeError (KeyError_get_key (KStr ''b'')))"
    using s by simp
  show ?thesis by (intro conjI 1 2 3 4)
qed


text \<open>
  Claim C5 as stated fails where the key of an item is registered as an alias of another
  key. After \<open>d = CleverDict({}, _aliases={"b": "zzz"}); d["b"] = 1; d["x"] = 2;
  d.add_alias("x", "zzz")\<close> the alias \<open>b\<close> resolves to \<open>zzz\<close>, the key of an item;
  \<open>del d["b"]\<close> succeeds, and afterwards \<open>d["zzz"]\<close> returns 2, the value of \<open>x\<close>.
\<close>

theorem delete_then_get_key_counterexample:
  "map_of (aliases stray_dict) (KStr ''b'') = Some (KStr ''zzz'')
   \<and> contains stray_dict (KStr ''zzz'')
   \<and> fst (delitem (KStr ''b'') stray_dict) = Inr ()
   \<and> getitem (KStr ''zzz'') (snd (delitem (KStr ''b'') stray_dict)) = Inr 2"
  by code_simp


section \<open>Construction with declared aliases\<close>








text \<open>
  \<open>CleverDict({"a": 1}, _aliases={"b": "zzz"}, _vars={"_aliases": {}})\<close>: the direct
  attribute \<open>_aliases\<close> replaces the alias dictionary, and the declared alias is lost.
\<close>

lemma init_vars_replace_aliases:
  "fst (init dictionary_of True [(KStr ''a'', Number 1)] (Some [(KStr ''b'', KStr ''zzz'')])
          [(''_aliases'', Dictionary [])] []) = Some (Inr ())
   \<and> get_key (KStr ''b'')
        (snd (init dictionary_of True [(KStr ''a'', Number 1)] (Some [(KStr ''b'', KStr ''zzz'')])
               [(''_aliases'', Dictionary [])] []))
       = Inl (KeyError_get_key (KStr ''b''))"
  by code_simp






end
